theory Spec2Isabelle
  imports Main "HOL-Library.Word" "HOL-Library.Monad_Syntax" "HOL-Library.Signed_Division"
    "HOL-Library.Code_Target_Nat"
begin

unbundle bit_operations_syntax

section \<open>Conventions\<close>

text \<open>
  The kernel is modelled sequentially: one thread runs each operation to completion, so
  locks, semaphores and interrupt masking are no-ops and are left out.  A function of the C
  code that can stop the kernel (a failed \<open>ASSERT\<close>, a \<open>PANIC\<close>) or that would
  read or write outside an array returns \<open>None\<close> at that point; otherwise it returns
  \<open>Some\<close> of its result together with the state it leaves behind.

  Machine integers of unsigned type (\<open>size_t\<close>, \<open>block_sector_t\<close>, both 32 bits wide on
  the target) are natural numbers; the places where truncation or wrap-around can be
  observed write it out.  Bytes are \<open>8 word\<close>, bitmap elements are \<open>32 word\<close>.
\<close>

section \<open>Kernel bitmap (lib/kernel/bitmap.c)\<close>

type_synonym elem_type = "32 word"

definition ELEM_BITS :: nat where
  "ELEM_BITS = 32"

definition SIZE_MAX :: nat where
  "SIZE_MAX = 4294967295"

definition BITMAP_ERROR :: nat where
  "BITMAP_ERROR = SIZE_MAX"

text \<open>\<open>struct bitmap\<close>: the number of bits and the array of elements that hold them.\<close>

record bitmap =
  bit_cnt :: nat
  bits :: "elem_type list"

definition elem_idx :: "nat \<Rightarrow> nat" where
  "elem_idx bit_idx = bit_idx div ELEM_BITS"

definition bit_mask :: "nat \<Rightarrow> elem_type" where
  "bit_mask bit_idx = push_bit (bit_idx mod ELEM_BITS) 1"

definition elem_cnt :: "nat \<Rightarrow> nat" where
  "elem_cnt n = (n + ELEM_BITS - 1) div ELEM_BITS"

definition bitmap_buf_size :: "nat \<Rightarrow> nat" where
  "bitmap_buf_size n = 8 + 4 * elem_cnt n"

text \<open>\<open>bitmap_mark\<close> and \<open>bitmap_reset\<close> index \<open>b->bits\<close> without a check of their own.\<close>

definition bitmap_mark :: "bitmap \<Rightarrow> nat \<Rightarrow> bitmap option" where
  "bitmap_mark b bit_idx =
     (let idx = elem_idx bit_idx; mask = bit_mask bit_idx
      in if idx < length (bits b)
         then Some (b\<lparr>bits := (bits b)[idx := (bits b ! idx) OR mask]\<rparr>)
         else None)"

definition bitmap_reset :: "bitmap \<Rightarrow> nat \<Rightarrow> bitmap option" where
  "bitmap_reset b bit_idx =
     (let idx = elem_idx bit_idx; mask = bit_mask bit_idx
      in if idx < length (bits b)
         then Some (b\<lparr>bits := (bits b)[idx := (bits b ! idx) AND NOT mask]\<rparr>)
         else None)"

definition bitmap_set :: "bitmap \<Rightarrow> nat \<Rightarrow> bool \<Rightarrow> bitmap option" where
  "bitmap_set b idx v =
     (if idx < bit_cnt b
      then (if v then bitmap_mark b idx else bitmap_reset b idx)
      else None)"

definition bitmap_test :: "bitmap \<Rightarrow> nat \<Rightarrow> bool option" where
  "bitmap_test b idx =
     (if idx < bit_cnt b \<and> elem_idx idx < length (bits b)
      then Some ((bits b ! elem_idx idx) AND bit_mask idx \<noteq> 0)
      else None)"

text \<open>The loop of \<open>bitmap_set_multiple\<close>; the last argument counts the iterations left.\<close>

fun set_multiple_loop :: "bitmap \<Rightarrow> nat \<Rightarrow> bool \<Rightarrow> nat \<Rightarrow> bitmap option" where
  "set_multiple_loop b idx v 0 = Some b"
| "set_multiple_loop b idx v (Suc n) =
     (case bitmap_set b idx v of
        None \<Rightarrow> None
      | Some b' \<Rightarrow> set_multiple_loop b' (idx + 1) v n)"

definition bitmap_set_multiple :: "bitmap \<Rightarrow> nat \<Rightarrow> nat \<Rightarrow> bool \<Rightarrow> bitmap option" where
  "bitmap_set_multiple b start cnt v =
     (if start \<le> bit_cnt b \<and> (start + cnt) mod 2 ^ 32 \<le> bit_cnt b
      then set_multiple_loop b start v cnt
      else None)"

fun contains_loop :: "bitmap \<Rightarrow> nat \<Rightarrow> bool \<Rightarrow> nat \<Rightarrow> bool option" where
  "contains_loop b idx v 0 = Some False"
| "contains_loop b idx v (Suc n) =
     (case bitmap_test b idx of
        None \<Rightarrow> None
      | Some t \<Rightarrow> if t = v then Some True else contains_loop b (idx + 1) v n)"

definition bitmap_contains :: "bitmap \<Rightarrow> nat \<Rightarrow> nat \<Rightarrow> bool \<Rightarrow> bool option" where
  "bitmap_contains b start cnt v =
     (if start \<le> bit_cnt b \<and> (start + cnt) mod 2 ^ 32 \<le> bit_cnt b
      then contains_loop b start v cnt
      else None)"

definition bitmap_all :: "bitmap \<Rightarrow> nat \<Rightarrow> nat \<Rightarrow> bool option" where
  "bitmap_all b start cnt = map_option Not (bitmap_contains b start cnt False)"




text \<open>
  \<open>bitmap_lowest\<close> walks the elements, skips one that is all \<open>value\<close>-free and otherwise
  walks the \<open>ELEM_BITS\<close> bits of the element.  The bound of the walk is the number of
  elements, not the number of bits.
\<close>

definition empty_elem :: "bool \<Rightarrow> elem_type" where
  "empty_elem v = (if v then 0 else - 1)"

fun lowest_loop :: "elem_type list \<Rightarrow> bool \<Rightarrow> nat list \<Rightarrow> nat" where
  "lowest_loop bs v [] = BITMAP_ERROR"
| "lowest_loop bs v (i # rest) =
     (if bs ! i \<noteq> empty_elem v
      then (case find (\<lambda>j. ((bs ! i) AND bit_mask j \<noteq> 0) = v) [0..<ELEM_BITS] of
              Some j \<Rightarrow> i * ELEM_BITS + j
            | None \<Rightarrow> lowest_loop bs v rest)
      else lowest_loop bs v rest)"

definition bitmap_lowest :: "bitmap \<Rightarrow> bool \<Rightarrow> nat option" where
  "bitmap_lowest b v =
     (if elem_cnt (bit_cnt b) \<le> length (bits b)
      then Some (lowest_loop (bits b) v [0..<elem_cnt (bit_cnt b)])
      else None)"


section \<open>Block device and sector cache (filesys/fsdisk.c)\<close>

type_synonym byte = "8 word"

text \<open>A buffer of \<open>BLOCK_SECTOR_SIZE\<close> bytes, addressed by byte offset.\<close>

type_synonym sector_buf = "nat \<Rightarrow> byte"

definition BLOCK_SECTOR_SIZE :: nat where
  "BLOCK_SECTOR_SIZE = 512"

definition MAX_DISK_SIZE :: nat where
  "MAX_DISK_SIZE = 8388608"

definition FREE_MAP_START :: nat where
  "FREE_MAP_START = 1"

definition ROOT_DIR_SECTOR :: nat where
  "ROOT_DIR_SECTOR = 0"

text \<open>The value \<open>(block_sector_t) -1\<close>.\<close>

definition INVALID_SECTOR :: nat where
  "INVALID_SECTOR = 4294967295"

definition ZERO_BUF :: sector_buf where
  "ZERO_BUF = (\<lambda>_. 0)"

text \<open>\<open>struct inode\<close>, the in-memory inode (filesys/inode.c).\<close>

record inode =
  sector :: nat
  open_cnt :: int
  removed :: bool
  deny_write_cnt :: int

text \<open>
  The state of the file system.
  \<^item> \<open>sectors\<close> is the contents of the device as seen through the cache; the cache is
    coherent, so eviction and write-back do not show.
  \<^item> \<open>garbage\<close> is what a buffer obtained with \<open>CACHE_NOLOAD\<close> holds before it is
    written.
  \<^item> \<open>held\<close> lists the cache entries whose read/write lock the running thread holds,
    each with the mode (\<open>True\<close> for \<open>LOCK_WRITE\<close>).  Acquiring a lock that the
    thread cannot get because of a lock it holds itself never returns; such a call
    is \<open>None\<close> as well.
  \<^item> \<open>free_map\<close> is the bitmap kept in \<open>free_map_buffer\<close>.
  \<^item> \<open>open_inodes\<close> is the list of the same name.
  \<^item> \<open>heap\<close> gives the outcome of the next calls of \<open>malloc\<close> and \<open>calloc\<close>
    (\<open>True\<close> for success; success when the list is used up).
\<close>

record fs_state =
  disk_size :: nat
  sectors :: "nat \<Rightarrow> sector_buf"
  garbage :: sector_buf
  held :: "(nat \<times> bool) list"
  free_map :: bitmap
  open_inodes :: "inode list"
  heap :: "bool list"

definition free_map_sectors :: "fs_state \<Rightarrow> nat" where
  "free_map_sectors s =
     (bitmap_buf_size (disk_size s) + BLOCK_SECTOR_SIZE - 1) div BLOCK_SECTOR_SIZE"

definition is_free_map_sec :: "fs_state \<Rightarrow> nat \<Rightarrow> bool" where
  "is_free_map_sec s sec \<longleftrightarrow> 1 \<le> sec \<and> sec < FREE_MAP_START + free_map_sectors s"

text \<open>
  \<open>cache_get\<close> and \<open>cache_release\<close>, reduced to what one thread sees of them: the
  assertion on the sector and the read/write lock of the entry
  (\<open>rw_write_acquire\<close> waits while anybody holds the lock, \<open>rw_read_acquire\<close> while
  a writer holds it).
\<close>

definition cache_get :: "nat \<Rightarrow> bool \<Rightarrow> fs_state \<Rightarrow> fs_state option" where
  "cache_get sec wr s =
     (if is_free_map_sec s sec then None
      else if wr
      then (if sec \<in> fst ` set (held s) then None
            else Some (s\<lparr>held := (sec, True) # held s\<rparr>))
      else (if (sec, True) \<in> set (held s) then None
            else Some (s\<lparr>held := (sec, False) # held s\<rparr>)))"

definition cache_release :: "nat \<Rightarrow> fs_state \<Rightarrow> fs_state option" where
  "cache_release sec s =
     (if (sec, True) \<in> set (held s)
      then Some (s\<lparr>held := remove1 (sec, True) (held s)\<rparr>)
      else if (sec, False) \<in> set (held s)
      then Some (s\<lparr>held := remove1 (sec, False) (held s)\<rparr>)
      else None)"

text \<open>
  A pointer returned by \<open>fs_cache_get\<close>: the shared array of zeros, or the buffer of the
  cache entry of a sector.
\<close>

datatype bufptr = ZERO_BUF_PTR | ENTRY nat

definition fs_cache_get :: "nat \<Rightarrow> bool \<Rightarrow> bool \<Rightarrow> fs_state \<Rightarrow> (bufptr \<times> fs_state) option" where
  "fs_cache_get sec wr noload s =
     (if sec = INVALID_SECTOR \<and> \<not> (wr \<or> noload) then Some (ZERO_BUF_PTR, s)
      else if sec < disk_size s
      then (case cache_get sec (wr \<or> noload) s of
              None \<Rightarrow> None
            | Some s' \<Rightarrow>
                Some (ENTRY sec,
                      if noload then s'\<lparr>sectors := (sectors s')(sec := garbage s')\<rparr> else s'))
      else None)"

definition fs_cache_release :: "bufptr \<Rightarrow> fs_state \<Rightarrow> fs_state option" where
  "fs_cache_release p s =
     (case p of ZERO_BUF_PTR \<Rightarrow> Some s | ENTRY sec \<Rightarrow> cache_release sec s)"

text \<open>Reading and writing through such a pointer.\<close>

definition buf_at :: "fs_state \<Rightarrow> bufptr \<Rightarrow> sector_buf" where
  "buf_at s p = (case p of ZERO_BUF_PTR \<Rightarrow> ZERO_BUF | ENTRY n \<Rightarrow> sectors s n)"

definition buf_store :: "bufptr \<Rightarrow> sector_buf \<Rightarrow> fs_state \<Rightarrow> fs_state option" where
  "buf_store p b s =
     (case p of
        ZERO_BUF_PTR \<Rightarrow> None
      | ENTRY n \<Rightarrow> Some (s\<lparr>sectors := (sectors s)(n := b)\<rparr>))"

text \<open>\<open>fs_cache_write\<close>; the buffer \<open>NULL\<close> is \<open>None\<close>.\<close>

definition fs_cache_write :: "nat \<Rightarrow> sector_buf option \<Rightarrow> fs_state \<Rightarrow> fs_state option" where
  "fs_cache_write sec buf s =
     (if sec < disk_size s
      then (case cache_get sec True s of
              None \<Rightarrow> None
            | Some s' \<Rightarrow>
                cache_release sec
                  (s'\<lparr>sectors := (sectors s')
                        (sec := (case buf of Some b \<Rightarrow> b | None \<Rightarrow> ZERO_BUF))\<rparr>))
      else None)"


section \<open>Free-sector allocator (filesys/free-map.c)\<close>


definition free_map_get :: "fs_state \<Rightarrow> (nat option \<times> fs_state) option" where
  "free_map_get s =
     (case bitmap_lowest (free_map s) False of
        None \<Rightarrow> None
      | Some sec \<Rightarrow>
          if sec \<noteq> BITMAP_ERROR
          then (case bitmap_mark (free_map s) sec of
                  None \<Rightarrow> None
                | Some fm \<Rightarrow> Some (Some sec, s\<lparr>free_map := fm\<rparr>))
          else Some (None, s))"

definition free_map_release :: "nat \<Rightarrow> nat \<Rightarrow> fs_state \<Rightarrow> fs_state option" where
  "free_map_release sec cnt s =
     (case bitmap_all (free_map s) sec cnt of
        None \<Rightarrow> None
      | Some a \<Rightarrow>
          if a
          then (case bitmap_set_multiple (free_map s) sec cnt False of
                  None \<Rightarrow> None
                | Some fm \<Rightarrow> Some (s\<lparr>free_map := fm\<rparr>))
          else None)"

text \<open>The bit of an index in the storage of a bitmap, as \<open>bitmap_test\<close> computes it.\<close>

definition bit_is_set :: "bitmap \<Rightarrow> nat \<Rightarrow> bool" where
  "bit_is_set b idx \<longleftrightarrow> (bits b ! elem_idx idx) AND bit_mask idx \<noteq> 0"

section \<open>Inodes (filesys/inode.c)\<close>

definition INODE_MAGIC :: nat where
  "INODE_MAGIC = 1229868868"

text \<open>The value \<open>(fs_sector_t) -1\<close> of inode.c.\<close>

definition NO_SECTOR :: nat where
  "NO_SECTOR = 65535"

definition NUM_INDIRECT :: nat where
  "NUM_INDIRECT = 64"

definition NUM_DIRECT :: nat where
  "NUM_DIRECT = (BLOCK_SECTOR_SIZE - 12) div 2 - NUM_INDIRECT"

definition INDIRECT_NUM_DIRECT :: nat where
  "INDIRECT_NUM_DIRECT = BLOCK_SECTOR_SIZE div 2"

text \<open>
  A failed \<open>ASSERT\<close>, and likewise an access outside an array, ends the computation.
\<close>

definition ASSERT :: "bool \<Rightarrow> unit option" where
  "ASSERT c = (if c then Some () else None)"

subsection \<open>Layout of the on-disk structures\<close>

text \<open>
  Integers lie in a sector in little-endian byte order.  A value stored into a 16-bit or
  32-bit field is cut to the width of the field.
\<close>

definition rd16 :: "sector_buf \<Rightarrow> nat \<Rightarrow> nat" where
  "rd16 buf off = unat (buf off) + 256 * unat (buf (off + 1))"

definition wr16 :: "sector_buf \<Rightarrow> nat \<Rightarrow> nat \<Rightarrow> sector_buf" where
  "wr16 buf off v = buf(off := of_nat v, off + 1 := of_nat (v div 256))"

definition rd32 :: "sector_buf \<Rightarrow> nat \<Rightarrow> nat" where
  "rd32 buf off = unat (buf off) + 256 * unat (buf (off + 1))
                  + 65536 * unat (buf (off + 2)) + 16777216 * unat (buf (off + 3))"

definition wr32 :: "sector_buf \<Rightarrow> nat \<Rightarrow> nat \<Rightarrow> sector_buf" where
  "wr32 buf off v = buf(off := of_nat v, off + 1 := of_nat (v div 256),
                        off + 2 := of_nat (v div 65536), off + 3 := of_nat (v div 16777216))"

text \<open>Conversion between \<open>int32_t\<close> values and their unsigned representation.\<close>

definition s32 :: "nat \<Rightarrow> int" where
  "s32 n = (if n < 2147483648 then int n else int n - 4294967296)"

definition u32 :: "int \<Rightarrow> nat" where
  "u32 i = nat (i mod 4294967296)"

text \<open>
  \<open>inode_disk_t\<close>: the header (\<open>length\<close> at byte 0, \<open>magic\<close> at 4, \<open>counter\<close> at 8),
  then \<open>direct[NUM_DIRECT]\<close> from byte 12 and \<open>indirect[NUM_INDIRECT]\<close> after it, two
  bytes an entry.
\<close>

definition get_length :: "sector_buf \<Rightarrow> int" where
  "get_length buf = s32 (rd32 buf 0)"

definition set_length :: "sector_buf \<Rightarrow> int \<Rightarrow> sector_buf" where
  "set_length buf l = wr32 buf 0 (u32 l)"

definition get_magic :: "sector_buf \<Rightarrow> nat" where
  "get_magic buf = rd32 buf 4"

definition set_magic :: "sector_buf \<Rightarrow> nat \<Rightarrow> sector_buf" where
  "set_magic buf m = wr32 buf 4 m"

definition get_counter :: "sector_buf \<Rightarrow> int" where
  "get_counter buf = s32 (rd32 buf 8)"

definition set_counter :: "sector_buf \<Rightarrow> int \<Rightarrow> sector_buf" where
  "set_counter buf c = wr32 buf 8 (u32 c)"

definition get_direct :: "sector_buf \<Rightarrow> nat \<Rightarrow> nat" where
  "get_direct buf i = rd16 buf (12 + 2 * i)"

definition set_direct :: "sector_buf \<Rightarrow> nat \<Rightarrow> nat \<Rightarrow> sector_buf" where
  "set_direct buf i v = wr16 buf (12 + 2 * i) v"

definition get_indirect :: "sector_buf \<Rightarrow> nat \<Rightarrow> nat" where
  "get_indirect buf i = rd16 buf (12 + 2 * NUM_DIRECT + 2 * i)"

definition set_indirect :: "sector_buf \<Rightarrow> nat \<Rightarrow> nat \<Rightarrow> sector_buf" where
  "set_indirect buf i v = wr16 buf (12 + 2 * NUM_DIRECT + 2 * i) v"

text \<open>\<open>indirect_node_t\<close>: \<open>direct[INDIRECT_NUM_DIRECT]\<close> from byte 0.\<close>

definition node_get :: "sector_buf \<Rightarrow> nat \<Rightarrow> nat" where
  "node_get buf j = rd16 buf (2 * j)"

definition node_set :: "sector_buf \<Rightarrow> nat \<Rightarrow> nat \<Rightarrow> sector_buf" where
  "node_set buf j v = wr16 buf (2 * j) v"

subsection \<open>Translation of byte offsets\<close>

text \<open>The conversion of an \<open>int\<close> to \<open>size_t\<close>.\<close>

definition size_t_of_int :: "int \<Rightarrow> nat" where
  "size_t_of_int i = nat (i mod 4294967296)"

text \<open>
  The part of \<open>byte_to_sector\<close> that fills an absent slot: \<open>free_map_get\<close>, the
  assertion on the sector it returned, and the store into the slot.  The result tells
  whether a sector was allocated.
\<close>

definition alloc_slot ::
  "bufptr \<Rightarrow> (sector_buf \<Rightarrow> nat \<Rightarrow> sector_buf) \<Rightarrow> fs_state \<Rightarrow> (nat option \<times> fs_state) option" where
  "alloc_slot p store s0 = do {
     (r, s) \<leftarrow> free_map_get s0;
     (case r of
        Some sec \<Rightarrow> do {
          _ \<leftarrow> ASSERT (sec < disk_size s);
          s \<leftarrow> buf_store p (store (buf_at s p) sec) s;
          Some (Some sec, s) }
      | None \<Rightarrow> Some (None, s)) }"

text \<open>
  \<open>byte_to_sector\<close>, block by block.  The first block is the branch for an offset among
  the direct entries; \<open>data\<close> points to the inode.  The result is \<open>ret\<close> and
  \<open>allocated\<close>.
\<close>

definition byte_to_sector_direct ::
  "bufptr \<Rightarrow> nat \<Rightarrow> bool \<Rightarrow> fs_state \<Rightarrow> (nat \<times> bool \<times> fs_state) option" where
  "byte_to_sector_direct data sec_off create s0 = do {
     (allocated, s) \<leftarrow>
       (if create \<and> get_direct (buf_at s0 data) sec_off = NO_SECTOR
        then do {
          (r, s) \<leftarrow> alloc_slot data (\<lambda>b. set_direct b sec_off) s0;
          Some (r \<noteq> None, s) }
        else Some (False, s0));
     let ret = (if get_direct (buf_at s data) sec_off \<noteq> NO_SECTOR
                then get_direct (buf_at s data) sec_off else INVALID_SECTOR);
     s \<leftarrow> fs_cache_release data s;
     Some (ret, allocated, s) }"

text \<open>
  The block that sets \<open>subnode\<close>: a new indirect node is allocated and filled with
  \<open>NO_SECTOR\<close>, or the existing one is fetched, or there is none.  Where
  \<open>free_map_get\<close> fails, \<open>data\<close> is not released.  The existing node is looked up
  through \<open>data\<close> after \<open>data\<close> has been released.
\<close>

definition byte_to_sector_subnode ::
  "bufptr \<Rightarrow> nat \<Rightarrow> bool \<Rightarrow> fs_state \<Rightarrow> (bufptr option \<times> fs_state) option" where
  "byte_to_sector_subnode data subnode_i create s0 =
     (if get_indirect (buf_at s0 data) subnode_i = NO_SECTOR \<and> create
      then do {
        (r, s) \<leftarrow> alloc_slot data (\<lambda>b. set_indirect b subnode_i) s0;
        (case r of
           Some sec \<Rightarrow> do {
             s \<leftarrow> fs_cache_release data s;
             (sub, s) \<leftarrow> fs_cache_get sec False True s;
             s \<leftarrow> buf_store sub
                   (fold (\<lambda>i b. node_set b i NO_SECTOR) [0..<INDIRECT_NUM_DIRECT]
                      (buf_at s sub)) s;
             Some (Some sub, s) }
         | None \<Rightarrow> Some (None, s)) }
      else if get_indirect (buf_at s0 data) subnode_i \<noteq> NO_SECTOR
      then do {
        _ \<leftarrow> ASSERT (get_indirect (buf_at s0 data) subnode_i < disk_size s0);
        s \<leftarrow> fs_cache_release data s0;
        (sub, s) \<leftarrow> fs_cache_get (get_indirect (buf_at s data) subnode_i) create False s;
        Some (Some sub, s) }
      else do {
        s \<leftarrow> fs_cache_release data s0;
        Some (None, s) })"

text \<open>The block under \<open>subnode != NULL\<close>.\<close>

definition byte_to_sector_entry ::
  "bufptr \<Rightarrow> nat \<Rightarrow> bool \<Rightarrow> fs_state \<Rightarrow> (nat \<times> bool \<times> fs_state) option" where
  "byte_to_sector_entry subnode subnode_j create s0 = do {
     (allocated, s) \<leftarrow>
       (if create \<and> node_get (buf_at s0 subnode) subnode_j = NO_SECTOR
        then do {
          (r, s) \<leftarrow> alloc_slot subnode (\<lambda>b. node_set b subnode_j) s0;
          Some (r \<noteq> None, s) }
        else Some (False, s0));
     ret \<leftarrow>
       (if node_get (buf_at s subnode) subnode_j \<noteq> NO_SECTOR
        then do {
          _ \<leftarrow> ASSERT (node_get (buf_at s subnode) subnode_j < disk_size s);
          Some (node_get (buf_at s subnode) subnode_j) }
        else Some INVALID_SECTOR);
     s \<leftarrow> fs_cache_release subnode s;
     Some (ret, allocated, s) }"

definition byte_to_sector :: "nat \<Rightarrow> int \<Rightarrow> bool \<Rightarrow> fs_state \<Rightarrow> (nat \<times> fs_state) option" where
  "byte_to_sector isec pos create s0 = do {
     (data, s) \<leftarrow> fs_cache_get isec create False s0;
     let sec_off = size_t_of_int (pos sdiv 512);
     (ret, allocated, s) \<leftarrow>
       (if sec_off < NUM_DIRECT then byte_to_sector_direct data sec_off create s
        else do {
          let subnode_i = (sec_off - NUM_DIRECT) div INDIRECT_NUM_DIRECT;
          let subnode_j = (sec_off - NUM_DIRECT) mod INDIRECT_NUM_DIRECT;
          _ \<leftarrow> ASSERT (subnode_i < NUM_INDIRECT);
          (subnode, s) \<leftarrow> byte_to_sector_subnode data subnode_i create s;
          (case subnode of
             Some sub \<Rightarrow> byte_to_sector_entry sub subnode_j create s
           | None \<Rightarrow> Some (INVALID_SECTOR, False, s)) });
     (if allocated
      then do { s \<leftarrow> fs_cache_write ret None s; Some (ret, s) }
      else Some (ret, s)) }"

subsection \<open>Creating, opening and closing\<close>

definition inode_create :: "nat \<Rightarrow> int \<Rightarrow> fs_state \<Rightarrow> (bool \<times> fs_state) option" where
  "inode_create sec len s0 = do {
     _ \<leftarrow> ASSERT (len \<ge> 0);
     (disk_inode, s) \<leftarrow> fs_cache_get sec False True s0;
     s \<leftarrow> buf_store disk_inode (set_length (buf_at s disk_inode) len) s;
     s \<leftarrow> buf_store disk_inode (set_magic (buf_at s disk_inode) INODE_MAGIC) s;
     s \<leftarrow> buf_store disk_inode (set_counter (buf_at s disk_inode) 0) s;
     s \<leftarrow> buf_store disk_inode
           (fold (\<lambda>i b. set_direct b i NO_SECTOR) [0..<NUM_DIRECT] (buf_at s disk_inode)) s;
     s \<leftarrow> buf_store disk_inode
           (fold (\<lambda>i b. set_indirect b i NO_SECTOR) [0..<NUM_INDIRECT] (buf_at s disk_inode)) s;
     s \<leftarrow> fs_cache_release disk_inode s;
     Some (True, s) }"

text \<open>
  A pointer to a \<open>struct inode\<close> is the sector of the inode: \<open>open_inodes\<close> never holds
  two inodes of one sector.  \<open>NULL\<close> is \<open>None\<close>.  The fields other than \<open>sector\<close> are
  read and written in the list; an inode that is not in the list has been freed.
\<close>

definition find_inode :: "nat \<Rightarrow> fs_state \<Rightarrow> inode option" where
  "find_inode h s = find (\<lambda>i. sector i = h) (open_inodes s)"

definition update_inode :: "nat \<Rightarrow> (inode \<Rightarrow> inode) \<Rightarrow> fs_state \<Rightarrow> fs_state" where
  "update_inode h f s =
     s\<lparr>open_inodes := map (\<lambda>i. if sector i = h then f i else i) (open_inodes s)\<rparr>"

definition malloc :: "fs_state \<Rightarrow> bool \<times> fs_state" where
  "malloc s = (case heap s of [] \<Rightarrow> (True, s) | b # bs \<Rightarrow> (b, s\<lparr>heap := bs\<rparr>))"

definition inode_reopen :: "nat option \<Rightarrow> fs_state \<Rightarrow> (nat option \<times> fs_state) option" where
  "inode_reopen inode s =
     (case inode of
        None \<Rightarrow> Some (None, s)
      | Some h \<Rightarrow> do {
          _ \<leftarrow> find_inode h s;
          Some (Some h, update_inode h (\<lambda>i. i\<lparr>open_cnt := open_cnt i + 1\<rparr>) s) })"

definition inode_open :: "nat \<Rightarrow> fs_state \<Rightarrow> (nat option \<times> fs_state) option" where
  "inode_open sec s =
     (case find_inode sec s of
        Some i \<Rightarrow> inode_reopen (Some sec) s
      | None \<Rightarrow>
          (case malloc s of
             (False, s') \<Rightarrow> Some (None, s')
           | (True, s') \<Rightarrow>
               Some (Some sec,
                     s'\<lparr>open_inodes :=
                          \<lparr>sector = sec, open_cnt = 1, removed = False, deny_write_cnt = 0\<rparr>
                          # open_inodes s'\<rparr>)))"

definition inode_get_inumber :: "nat \<Rightarrow> nat" where
  "inode_get_inumber h = h"

text \<open>The result is \<open>uint32_t\<close>.\<close>

definition inode_get_open_cnt :: "nat \<Rightarrow> fs_state \<Rightarrow> nat option" where
  "inode_get_open_cnt h s = map_option (\<lambda>i. u32 (open_cnt i)) (find_inode h s)"

text \<open>The loops of \<open>inode_close\<close> over the entries of the inode and of an indirect node.\<close>

fun release_direct_loop :: "bufptr \<Rightarrow> nat list \<Rightarrow> fs_state \<Rightarrow> fs_state option" where
  "release_direct_loop p [] s = Some s"
| "release_direct_loop p (i # rest) s =
     (if get_direct (buf_at s p) i \<noteq> NO_SECTOR
      then (case free_map_release (get_direct (buf_at s p) i) 1 s of
              None \<Rightarrow> None
            | Some s' \<Rightarrow> release_direct_loop p rest s')
      else release_direct_loop p rest s)"

fun release_node_loop :: "bufptr \<Rightarrow> nat list \<Rightarrow> fs_state \<Rightarrow> fs_state option" where
  "release_node_loop p [] s = Some s"
| "release_node_loop p (i # rest) s =
     (if node_get (buf_at s p) i \<noteq> NO_SECTOR
      then (case free_map_release (node_get (buf_at s p) i) 1 s of
              None \<Rightarrow> None
            | Some s' \<Rightarrow> release_node_loop p rest s')
      else release_node_loop p rest s)"

fun release_indirect_loop :: "nat list \<Rightarrow> fs_state \<Rightarrow> fs_state option" where
  "release_indirect_loop [] s = Some s"
| "release_indirect_loop (ind # rest) s =
     (if ind \<noteq> NO_SECTOR
      then (case fs_cache_get ind False False s of
              None \<Rightarrow> None
            | Some (subnode, s1) \<Rightarrow>
                (case release_node_loop subnode [0..<NUM_DIRECT] s1 of
                   None \<Rightarrow> None
                 | Some s2 \<Rightarrow>
                     (case free_map_release ind 1 s2 of
                        None \<Rightarrow> None
                      | Some s3 \<Rightarrow>
                          (case fs_cache_release subnode s3 of
                             None \<Rightarrow> None
                           | Some s4 \<Rightarrow> release_indirect_loop rest s4))))
      else release_indirect_loop rest s)"

definition inode_close :: "nat option \<Rightarrow> fs_state \<Rightarrow> fs_state option" where
  "inode_close inode s0 =
     (case inode of
        None \<Rightarrow> Some s0
      | Some h \<Rightarrow> do {
          i \<leftarrow> find_inode h s0;
          let s = update_inode h (\<lambda>i. i\<lparr>open_cnt := open_cnt i - 1\<rparr>) s0;
          (if open_cnt i - 1 = 0
           then do {
             let s = s\<lparr>open_inodes := filter (\<lambda>i. sector i \<noteq> h) (open_inodes s)\<rparr>;
             (if removed i
              then do {
                (data, s) \<leftarrow> fs_cache_get h False False s;
                s \<leftarrow> release_direct_loop data [0..<NUM_DIRECT] s;
                let indirect = map (get_indirect (buf_at s data)) [0..<NUM_INDIRECT];
                s \<leftarrow> fs_cache_release data s;
                s \<leftarrow> release_indirect_loop indirect s;
                free_map_release h 1 s }
              else Some s) }
           else Some s) })"

definition inode_remove :: "nat \<Rightarrow> fs_state \<Rightarrow> fs_state option" where
  "inode_remove h s = do {
     _ \<leftarrow> find_inode h s;
     Some (update_inode h (\<lambda>i. i\<lparr>removed := True\<rparr>) s) }"

subsection \<open>Header fields\<close>


definition inode_counter_get :: "nat \<Rightarrow> fs_state \<Rightarrow> (int \<times> fs_state) option" where
  "inode_counter_get h s0 = do {
     (data, s) \<leftarrow> fs_cache_get h False False s0;
     let counter = get_counter (buf_at s data);
     s \<leftarrow> fs_cache_release data s;
     Some (counter, s) }"

text \<open>The sum is an \<open>int32_t\<close>; it wraps around as the store into the field does.\<close>

definition inode_counter_add :: "nat \<Rightarrow> int \<Rightarrow> fs_state \<Rightarrow> (int \<times> fs_state) option" where
  "inode_counter_add h x s0 = do {
     (data, s) \<leftarrow> fs_cache_get h True False s0;
     let counter = s32 (u32 (get_counter (buf_at s data) + x));
     s \<leftarrow> buf_store data (set_counter (buf_at s data) counter) s;
     s \<leftarrow> fs_cache_release data s;
     Some (counter, s) }"

subsection \<open>Reading and writing\<close>







text \<open>
  One pass through the body of the loop of \<open>inode_write_at\<close>; \<open>buf\<close> is the caller's
  buffer from \<open>bytes_written\<close> on.  The result is the chunk size, or \<open>None\<close> for a
  \<open>break\<close>.
\<close>

definition write_chunk ::
  "nat \<Rightarrow> byte list \<Rightarrow> int \<Rightarrow> int \<Rightarrow> fs_state \<Rightarrow> (int option \<times> fs_state) option" where
  "write_chunk h buf sz offset s0 = do {
     (sector_idx, s) \<leftarrow> byte_to_sector h offset True s0;
     (if sector_idx = INVALID_SECTOR then Some (None, s)
      else do {
        let sector_ofs = offset smod 512;
        let sector_left = 512 - sector_ofs;
        let min_left = sector_left;
        let chunk_size = (if sz < min_left then sz else min_left);
        (if chunk_size \<le> 0 then Some (None, s)
         else if sector_ofs = 0 \<and> chunk_size = 512
         then do {
           s \<leftarrow> fs_cache_write sector_idx (Some (\<lambda>i. buf ! i)) s;
           Some (Some chunk_size, s) }
         else do {
           (sec, s) \<leftarrow> fs_cache_get sector_idx True False s;
           _ \<leftarrow> ASSERT (0 \<le> sector_ofs);
           s \<leftarrow> buf_store sec
                 (\<lambda>i. if nat sector_ofs \<le> i \<and> i < nat sector_ofs + nat chunk_size
                      then buf ! (i - nat sector_ofs) else buf_at s sec i) s;
           s \<leftarrow> fs_cache_release sec s;
           Some (Some chunk_size, s) }) }) }"

lemma write_chunk_size:
  assumes "write_chunk h buf sz offset s = Some (Some chunk_size, s')"
  shows "0 < chunk_size" and "chunk_size \<le> sz"
  using assms
  by (auto simp: write_chunk_def ASSERT_def Let_def
           split: Option.bind_splits prod.splits if_splits)

function inode_write_loop ::
  "nat \<Rightarrow> byte list \<Rightarrow> int \<Rightarrow> int \<Rightarrow> int \<Rightarrow> fs_state \<Rightarrow> (int \<times> int \<times> fs_state) option" where
  "inode_write_loop h buffer sz offset bytes_written s =
     (if sz > 0
      then (case write_chunk h (drop (nat bytes_written) buffer) sz offset s of
              None \<Rightarrow> None
            | Some (None, s') \<Rightarrow> Some (bytes_written, offset, s')
            | Some (Some chunk_size, s') \<Rightarrow>
                inode_write_loop h buffer (sz - chunk_size) (offset + chunk_size)
                  (bytes_written + chunk_size) s')
      else Some (bytes_written, offset, s))"
  by pat_completeness auto
termination
  by (relation "measure (\<lambda>(h, buffer, sz, offset, bytes_written, s). nat sz)")
     (auto dest: write_chunk_size)

declare inode_write_loop.simps [simp del]

text \<open>
  The caller's buffer is the list \<open>buffer\<close>; a request for more bytes than it holds reads
  outside it.
\<close>

definition inode_write_at ::
  "nat \<Rightarrow> byte list \<Rightarrow> int \<Rightarrow> int \<Rightarrow> fs_state \<Rightarrow> (int \<times> fs_state) option" where
  "inode_write_at h buffer sz offset s0 = do {
     i \<leftarrow> find_inode h s0;
     (if deny_write_cnt i \<noteq> 0 then Some (0, s0)
      else do {
        _ \<leftarrow> ASSERT (sz \<le> int (length buffer));
        (bytes_written, offset, s) \<leftarrow> inode_write_loop h buffer sz offset 0 s0;
        (data, s) \<leftarrow> fs_cache_get h True False s;
        s \<leftarrow> (if get_length (buf_at s data) < offset
              then buf_store data (set_length (buf_at s data) offset) s
              else Some s);
        s \<leftarrow> fs_cache_release data s;
        Some (bytes_written, s) }) }"

definition inode_deny_write :: "nat \<Rightarrow> fs_state \<Rightarrow> fs_state option" where
  "inode_deny_write h s = do {
     i \<leftarrow> find_inode h s;
     _ \<leftarrow> ASSERT (deny_write_cnt i + 1 \<le> open_cnt i);
     Some (update_inode h (\<lambda>i. i\<lparr>deny_write_cnt := deny_write_cnt i + 1\<rparr>) s) }"

definition inode_allow_write :: "nat \<Rightarrow> fs_state \<Rightarrow> fs_state option" where
  "inode_allow_write h s = do {
     i \<leftarrow> find_inode h s;
     _ \<leftarrow> ASSERT (deny_write_cnt i \<le> open_cnt i);
     _ \<leftarrow> ASSERT (deny_write_cnt i - 1 \<ge> 0);
     Some (update_inode h (\<lambda>i. i\<lparr>deny_write_cnt := deny_write_cnt i - 1\<rparr>) s) }"

subsection \<open>Well-formed inodes\<close>

text \<open>
  The places of an inode that hold a sector number: a direct entry, an indirect entry, or
  an entry of the indirect node that an indirect entry names.  \<open>slot_val\<close> reads a place;
  a place outside the arrays, or behind an absent indirect node, reads as \<open>NO_SECTOR\<close>.
\<close>

datatype slot = Direct nat | Indirect nat | Node nat nat


text \<open>A sector that the cache accepts and that is marked in the free map.\<close>

definition allocated :: "fs_state \<Rightarrow> nat \<Rightarrow> bool" where
  "allocated s x \<longleftrightarrow> x < disk_size s \<and> \<not> is_free_map_sec s x \<and> bit_is_set (free_map s) x"






section \<open>Swap table (vm/swaptbl.c) and supplemental page table (vm/mappings.c)\<close>

definition PGSIZE :: nat where
  "PGSIZE = 4096"

definition PHYS_BASE :: nat where
  "PHYS_BASE = 3221225472"

definition SECTORS_PER_PAGE :: nat where
  "SECTORS_PER_PAGE = PGSIZE div BLOCK_SECTOR_SIZE"

text \<open>
  The union \<open>data\<close> of a mapping holds either the file information (file, offset in
  pages, size minus one) or the swap slot; storing one member overwrites the other.
\<close>

datatype mapping_data = FILE_INFO nat nat nat | SWAP_SLOT nat

text \<open>\<open>struct vm_mapping\<close>; \<open>pt\<close> names the page table the mapping belongs to.\<close>

record vm_mapping =
  page :: nat
  present :: bool
  writable :: bool
  hasfile :: bool
  fwrite :: bool
  map_start :: bool
  orphaned :: bool
  swapped :: bool
  isstack :: bool
  pt :: nat
  frame :: nat
  data :: mapping_data

text \<open>
  The state of the virtual-memory layer: the mappings by address, the bytes of the frames
  by address, the swap bitmap \<open>occupied\<close> and the sectors of the swap device.

  Modelled from the spec: the page directory, the page allocator and the file layer
  (userprog/pagedir.c, threads/palloc.c and filesys/file.c are not among the sources).
  \<open>pd_dirty\<close> and \<open>pd_mapped\<close> are the dirty bit and the presence of a page in the
  hardware page directory of a page table, \<open>freed_pages\<close> collects the frames handed to
  \<open>palloc_free_page\<close>, \<open>file_writes\<close> collects the writes issued by \<open>file_seek\<close>
  followed by \<open>file_write\<close> (file, byte offset, bytes) and \<open>closed_files\<close> the files
  handed to \<open>file_close\<close>.
\<close>

record vm_state =
  mappings :: "nat \<Rightarrow> vm_mapping option"
  frames :: "nat \<Rightarrow> nat \<Rightarrow> byte"
  occupied :: bitmap
  swap_block :: "nat \<Rightarrow> sector_buf"
  pd_dirty :: "nat \<Rightarrow> nat \<Rightarrow> bool"
  pd_mapped :: "nat \<Rightarrow> nat \<Rightarrow> bool"
  freed_pages :: "nat list"
  file_writes :: "(nat \<times> nat \<times> byte list) list"
  closed_files :: "nat list"

definition block_write :: "nat \<Rightarrow> (nat \<Rightarrow> byte) \<Rightarrow> vm_state \<Rightarrow> vm_state" where
  "block_write sec src s =
     s\<lparr>swap_block := (swap_block s)
          (sec := (\<lambda>i. if i < BLOCK_SECTOR_SIZE then src i else swap_block s sec i))\<rparr>"

definition swaptbl_store :: "nat \<Rightarrow> vm_state \<Rightarrow> (nat \<times> vm_state) option" where
  "swaptbl_store pg s0 = do {
     _ \<leftarrow> ASSERT (pg mod PGSIZE = 0);
     _ \<leftarrow> ASSERT (pg > PHYS_BASE);
     slot \<leftarrow> bitmap_lowest (occupied s0) False;
     _ \<leftarrow> ASSERT (slot \<noteq> BITMAP_ERROR);
     occ \<leftarrow> bitmap_set (occupied s0) slot True;
     let s = s0\<lparr>occupied := occ\<rparr>;
     let s = fold (\<lambda>sec s. block_write sec
                    (\<lambda>i. frames s pg ((sec - slot * SECTORS_PER_PAGE) * BLOCK_SECTOR_SIZE + i)) s)
               [slot * SECTORS_PER_PAGE..<(slot + 1) * SECTORS_PER_PAGE] s;
     Some (slot, s) }"

definition swaptbl_load :: "nat option \<Rightarrow> nat \<Rightarrow> vm_state \<Rightarrow> vm_state option" where
  "swaptbl_load pg slot s0 = do {
     s \<leftarrow> (case pg of
             None \<Rightarrow> Some s0
           | Some p \<Rightarrow> do {
               _ \<leftarrow> ASSERT (p mod PGSIZE = 0);
               _ \<leftarrow> ASSERT (p > PHYS_BASE);
               Some (s0\<lparr>frames := (frames s0)
                      (p := (\<lambda>i. if i < PGSIZE
                                 then swap_block s0 (slot * SECTORS_PER_PAGE + i div BLOCK_SECTOR_SIZE)
                                        (i mod BLOCK_SECTOR_SIZE)
                                 else frames s0 p i))\<rparr>) });
     _ \<leftarrow> ASSERT (slot < bit_cnt (occupied s));
     t \<leftarrow> bitmap_test (occupied s) slot;
     _ \<leftarrow> ASSERT t;
     occ \<leftarrow> bitmap_set (occupied s) slot False;
     Some (s\<lparr>occupied := occ\<rparr>) }"

definition palloc_free_page :: "nat \<Rightarrow> vm_state \<Rightarrow> vm_state" where
  "palloc_free_page pg s = s\<lparr>freed_pages := pg # freed_pages s\<rparr>"

definition evict_to_file :: "vm_mapping \<Rightarrow> vm_state \<Rightarrow> vm_state option" where
  "evict_to_file m s =
     (case data m of
        FILE_INFO file ofs sz \<Rightarrow>
          Some (s\<lparr>file_writes := file_writes s @
                    [(file, ofs * PGSIZE, map (frames s (frame m)) [0..<sz + 1])]\<rparr>)
      | SWAP_SLOT _ \<Rightarrow> None)"

definition mapping_free :: "nat \<Rightarrow> vm_state \<Rightarrow> vm_state option" where
  "mapping_free p s0 = do {
     m \<leftarrow> mappings s0 p;
     s \<leftarrow> (if fwrite m
           then (case data m of
                   FILE_INFO file ofs sz \<Rightarrow> Some (s0\<lparr>closed_files := file # closed_files s0\<rparr>)
                 | SWAP_SLOT _ \<Rightarrow> None)
           else Some s0);
     s \<leftarrow> (if swapped m \<and> \<not> present m
           then (case data m of
                   SWAP_SLOT slot \<Rightarrow> swaptbl_load None slot s
                 | FILE_INFO _ _ _ \<Rightarrow> None)
           else Some s);
     let s = (if present m then palloc_free_page (frame m) s else s);
     Some (s\<lparr>mappings := (mappings s)(p := None)\<rparr>) }"

text \<open>The statements at the label \<open>swap\<close> of \<open>vm_evict_page\<close>.\<close>

definition evict_to_swap :: "nat \<Rightarrow> vm_mapping \<Rightarrow> vm_state \<Rightarrow> (vm_mapping \<times> vm_state) option" where
  "evict_to_swap frm m s0 = do {
     let m = m\<lparr>swapped := True\<rparr>;
     (slot, s) \<leftarrow> swaptbl_store frm s0;
     Some (m\<lparr>data := SWAP_SLOT slot\<rparr>, s) }"

definition vm_evict_page :: "nat option \<Rightarrow> vm_state \<Rightarrow> vm_state option" where
  "vm_evict_page mapping s0 =
     (case mapping of
        None \<Rightarrow> Some s0
      | Some p \<Rightarrow> do {
          m \<leftarrow> mappings s0 p;
          _ \<leftarrow> ASSERT (present m);
          let frm = frame m;
          (if orphaned m then mapping_free p s0
           else do {
             let m = m\<lparr>present := False\<rparr>;
             let is_dirty = pd_dirty s0 (pt m) (page m);
             let s = s0\<lparr>pd_mapped :=
                          (pd_mapped s0)((pt m) := (pd_mapped s0 (pt m))((page m) := False))\<rparr>;
             (m, s) \<leftarrow>
               (if \<not> is_dirty \<and> \<not> swapped m then Some (m, s)
                else if hasfile m
                then (if \<not> fwrite m
                      then evict_to_swap frm (m\<lparr>fwrite := False, hasfile := False\<rparr>) s
                      else do { s \<leftarrow> evict_to_file m s; Some (m, s) })
                else evict_to_swap frm m s);
             let s = palloc_free_page frm s;
             Some (s\<lparr>mappings := (mappings s)(p \<mapsto> m)\<rparr>) }) })"

definition mapping_destroy :: "nat \<Rightarrow> vm_state \<Rightarrow> vm_state option" where
  "mapping_destroy p s0 = do {
     m \<leftarrow> mappings s0 p;
     (if present m
      then do {
        let m = m\<lparr>orphaned := True\<rparr>;
        s \<leftarrow> (if fwrite m \<and> pd_dirty s0 (pt m) (page m) then evict_to_file m s0 else Some s0);
        Some (s\<lparr>mappings := (mappings s)(p \<mapsto> m)\<rparr>) }
      else mapping_free p s0) }"

text \<open>What \<open>_load_page\<close> stores in the mapping once the page is in a frame again.\<close>

definition reloaded :: "nat \<Rightarrow> nat \<Rightarrow> vm_state \<Rightarrow> vm_state" where
  "reloaded p kpage s =
     s\<lparr>mappings := (case mappings s p of
                       None \<Rightarrow> mappings s
                     | Some m \<Rightarrow> (mappings s)(p \<mapsto> m\<lparr>present := True, frame := kpage\<rparr>))\<rparr>"

section \<open>Example states\<close>

text \<open>
  A device of 40 sectors: sector 0 holds the root directory, sector 1 the free map, and
  sector 2 is in use.  The bitmap takes two elements, the upper 24 bits of the second one
  are padding.
\<close>

definition ex_fs :: fs_state where
  "ex_fs = \<lparr>disk_size = 40, sectors = (\<lambda>_. ZERO_BUF), garbage = ZERO_BUF, held = [],
            free_map = \<lparr>bit_cnt = 40, bits = [7, 0]\<rparr>, open_inodes = [], heap = []\<rparr>"

text \<open>
  A file-backed page of an executable (not writable back to the file) in a frame, and a
  swap device of 16 slots of which slot 0 is in use.
\<close>

definition ex_mapping :: vm_mapping where
  "ex_mapping = \<lparr>page = 134512640, present = True, writable = True, hasfile = True,
                  fwrite = False, map_start = False, orphaned = False, swapped = False,
                  isstack = False, pt = 1, frame = 3222274048, data = FILE_INFO 7 0 4095\<rparr>"

definition ex_vm :: vm_state where
  "ex_vm = \<lparr>mappings = (\<lambda>p. if p = 100 then Some ex_mapping else None),
            frames = (\<lambda>f i. of_nat i), occupied = \<lparr>bit_cnt = 16, bits = [1]\<rparr>,
            swap_block = (\<lambda>_. ZERO_BUF), pd_dirty = (\<lambda>pd pg. True),
            pd_mapped = (\<lambda>pd pg. True), freed_pages = [], file_writes = [],
            closed_files = []\<rparr>"

text \<open>The same page once it is swap-backed and back in a frame, its slot 1 occupied.\<close>

definition ex_vm_swapped :: vm_state where
  "ex_vm_swapped =
     ex_vm\<lparr>mappings := (\<lambda>p. if p = 100
                              then Some (ex_mapping\<lparr>hasfile := False, swapped := True,
                                                     data := SWAP_SLOT 1\<rparr>)
                              else None),
            occupied := \<lparr>bit_cnt = 16, bits = [3]\<rparr>\<rparr>"

text \<open>
  A file whose inode lies in sector 2.  Its only data sector is sector 4, listed as entry
  200 of the indirect node in sector 3, which is the first indirect node of the inode:
  the state after one byte has been written at byte offset
  \<open>(NUM_DIRECT + 200) * BLOCK_SECTOR_SIZE\<close> of a new file.  The file has been removed
  while one opener still holds it.  Sectors 0 to 4 are marked in the free map.
\<close>

definition ex_inode_buf :: sector_buf where
  "ex_inode_buf =
     set_indirect (set_counter (set_magic (set_length (\<lambda>_. 255) 197633) INODE_MAGIC) 0) 0 3"

definition ex_node_buf :: sector_buf where
  "ex_node_buf = node_set (\<lambda>_. 255) 200 4"

definition ex_removed :: fs_state where
  "ex_removed =
     \<lparr>disk_size = 40,
      sectors = (\<lambda>sec. if sec = 2 then ex_inode_buf else if sec = 3 then ex_node_buf
                       else ZERO_BUF),
      garbage = ZERO_BUF, held = [],
      free_map = \<lparr>bit_cnt = 40, bits = [31, 0]\<rparr>,
      open_inodes = [\<lparr>sector = 2, open_cnt = 1, removed = True, deny_write_cnt = 0\<rparr>],
      heap = []\<rparr>"



section \<open>Properties of the bitmap and of the free-sector allocator\<close>

lemma bit_is_set_iff: "bit_is_set b idx \<longleftrightarrow> bit (bits b ! elem_idx idx) (idx mod 32)"
  by (simp add: bit_is_set_def bit_mask_def ELEM_BITS_def push_bit_of_1 and_exp_eq_0_iff_not_bit)

lemma idx_split: "(elem_idx j = elem_idx i \<and> j mod 32 = i mod 32) \<longleftrightarrow> j = i"
  unfolding elem_idx_def ELEM_BITS_def
  by (metis div_mod_decomp)

lemma bitmap_mark_bit:
  assumes "bitmap_mark b i = Some b'"
  shows "bit_is_set b' j \<longleftrightarrow> j = i \<or> bit_is_set b j"
    and "bit_cnt b' = bit_cnt b" and "length (bits b') = length (bits b)"
    and "elem_idx i < length (bits b)"
proof -
  from assms have L: "elem_idx i < length (bits b)"
    and b': "b' = b\<lparr>bits := (bits b)[elem_idx i := (bits b ! elem_idx i) OR bit_mask i]\<rparr>"
    by (auto simp: bitmap_mark_def Let_def split: if_splits)
  show "bit_is_set b' j \<longleftrightarrow> j = i \<or> bit_is_set b j"
  proof (cases "elem_idx j = elem_idx i")
    case True
    have "bit (bit_mask i) (j mod 32) \<longleftrightarrow> j mod 32 = i mod 32"
      by (auto simp: bit_mask_def ELEM_BITS_def push_bit_of_1 bit_exp_iff)
    with True L show ?thesis
      using idx_split[of j i] by (auto simp: bit_is_set_iff b' bit_or_iff)
  next
    case False
    then have "j \<noteq> i" by auto
    with False show ?thesis by (simp add: bit_is_set_iff b')
  qed
  show "bit_cnt b' = bit_cnt b" "length (bits b') = length (bits b)" "elem_idx i < length (bits b)"
    using L by (simp_all add: b')
qed





lemma contains_loop_True:
  "contains_loop b idx v n = Some True \<Longrightarrow> \<exists>j. idx \<le> j \<and> j < idx + n \<and> bit_is_set b j = v"
proof (induction n arbitrary: idx)
  case 0
  then show ?case by simp
next
  case (Suc n)
  from Suc.prems(1) obtain t where t: "bitmap_test b idx = Some t"
    by (auto split: option.splits)
  then have tt: "t = bit_is_set b idx"
    by (auto simp: bitmap_test_def bit_is_set_def split: if_splits)
  show ?case
  proof (cases "t = v")
    case True
    with tt have "idx \<le> idx \<and> idx < idx + Suc n \<and> bit_is_set b idx = v" by simp
    then show ?thesis by blast
  next
    case False
    with Suc.prems t have "contains_loop b (idx + 1) v n = Some True" by simp
    from Suc.IH[OF this] obtain j where "idx + 1 \<le> j" "j < idx + 1 + n" "bit_is_set b j = v"
      by blast
    then have "idx \<le> j \<and> j < idx + Suc n \<and> bit_is_set b j = v" by simp
    then show ?thesis by blast
  qed
qed

lemma contains_loop_total:
  "(\<And>j. idx \<le> j \<Longrightarrow> j < idx + n \<Longrightarrow> j < bit_cnt b \<and> elem_idx j < length (bits b)) \<Longrightarrow>
     contains_loop b idx v n \<noteq> None"
proof (induction n arbitrary: idx)
  case 0
  then show ?case by simp
next
  case (Suc n)
  have "idx < bit_cnt b \<and> elem_idx idx < length (bits b)"
    using Suc.prems[of idx] by simp
  then have t: "bitmap_test b idx \<noteq> None" by (simp add: bitmap_test_def)
  have "contains_loop b (idx + 1) v n \<noteq> None"
    by (rule Suc.IH) (use Suc.prems in simp)
  with t show ?case by (auto split: option.splits)
qed

lemma lowest_loop_sem:
  "lowest_loop bs v [k..<n] = r \<Longrightarrow> r \<noteq> BITMAP_ERROR \<Longrightarrow>
     k * 32 \<le> r \<and> r < n * 32 \<and> bit (bs ! (r div 32)) (r mod 32) = v
     \<and> (\<forall>m. k * 32 \<le> m \<and> m < r \<longrightarrow> bit (bs ! (m div 32)) (m mod 32) \<noteq> v)"
proof (induction "n - k" arbitrary: k)
  case 0
  then show ?case by simp
next
  case (Suc d)
  then have kn: "k < n" and d: "d = n - Suc k" by auto
  have upt: "[k..<n] = k # [Suc k..<n]" using kn by (simp add: upt_conv_Cons)
  let ?P = "\<lambda>j. ((bs ! k) AND bit_mask j \<noteq> 0) = v"
  have P: "\<And>j. j < 32 \<Longrightarrow> ?P j = (bit (bs ! k) j = v)"
    by (simp add: bit_mask_def ELEM_BITS_def push_bit_of_1 and_exp_eq_0_iff_not_bit)
  have inel: "\<And>m. k * 32 \<le> m \<Longrightarrow> m < Suc k * 32 \<Longrightarrow> m div 32 = k \<and> m mod 32 = m - k * 32"
  proof -
    fix m assume "k * 32 \<le> m" "m < Suc k * 32"
    then obtain j where "m = k * 32 + j" "j < 32"
      by (metis add.commute less_diff_conv2 le_add_diff_inverse mult_Suc)
    then show "m div 32 = k \<and> m mod 32 = m - k * 32" by simp
  qed
  show ?case
  proof (cases "bs ! k \<noteq> empty_elem v \<and> find ?P [0..<ELEM_BITS] \<noteq> None")
    case True
    then obtain j where f: "find ?P [0..<ELEM_BITS] = Some j" by auto
    then have j: "j < 32" "?P j" "\<forall>j'<j. \<not> ?P j'"
      by (auto simp: find_Some_iff ELEM_BITS_def)
    from Suc.prems True f have r: "r = k * 32 + j" by (simp add: upt ELEM_BITS_def)
    have "\<And>m. k * 32 \<le> m \<Longrightarrow> m < r \<Longrightarrow> bit (bs ! (m div 32)) (m mod 32) \<noteq> v"
    proof -
      fix m assume m: "k * 32 \<le> m" "m < r"
      then have "m < Suc k * 32" using r j(1) by simp
      from inel[OF m(1) this] have e: "m div 32 = k" "m mod 32 = m - k * 32" by auto
      have "m - k * 32 < j" using m r by simp
      with j(3) P[of "m - k * 32"] j(1) e show "bit (bs ! (m div 32)) (m mod 32) \<noteq> v" by auto
    qed
    moreover have "bit (bs ! (r div 32)) (r mod 32) = v"
      using j P[of j] r by simp
    ultimately show ?thesis using r j(1) kn by auto
  next
    case False
    then have rec: "lowest_loop bs v [Suc k..<n] = r"
      using Suc.prems by (auto simp: upt split: option.splits)
    have none: "\<And>j. j < 32 \<Longrightarrow> bit (bs ! k) j \<noteq> v"
    proof -
      fix j :: nat assume j: "j < 32"
      show "bit (bs ! k) j \<noteq> v"
      proof (cases "bs ! k = empty_elem v")
        case True
        then show ?thesis using j by (cases v) (auto simp: empty_elem_def)
      next
        case F: False
        with False have "find ?P [0..<ELEM_BITS] = None" by simp
        then have "\<not> ?P j" using j by (auto simp: find_None_iff ELEM_BITS_def)
        with P[OF j] show ?thesis by simp
      qed
    qed
    from Suc.hyps(1)[of "Suc k", OF _ rec Suc.prems(2)] d
    have ih: "Suc k * 32 \<le> r" "r < n * 32" "bit (bs ! (r div 32)) (r mod 32) = v"
      "\<forall>m. Suc k * 32 \<le> m \<and> m < r \<longrightarrow> bit (bs ! (m div 32)) (m mod 32) \<noteq> v" by auto
    have "\<And>m. k * 32 \<le> m \<Longrightarrow> m < r \<Longrightarrow> bit (bs ! (m div 32)) (m mod 32) \<noteq> v"
    proof -
      fix m assume m: "k * 32 \<le> m" "m < r"
      show "bit (bs ! (m div 32)) (m mod 32) \<noteq> v"
      proof (cases "m < Suc k * 32")
        case True
        from inel[OF m(1) True] none[of "m - k * 32"] True show ?thesis by auto
      next
        case False
        with ih(4) m show ?thesis by auto
      qed
    qed
    with ih show ?thesis by auto
  qed
qed

lemma bitmap_lowest_sem:
  assumes "bitmap_lowest b v = Some r" "r \<noteq> BITMAP_ERROR"
  shows "bit_is_set b r = v" "\<And>m. m < r \<Longrightarrow> bit_is_set b m \<noteq> v"
    "r < elem_cnt (bit_cnt b) * 32" "elem_idx r < length (bits b)"
proof -
  from assms have len: "elem_cnt (bit_cnt b) \<le> length (bits b)"
    and r: "lowest_loop (bits b) v [0..<elem_cnt (bit_cnt b)] = r"
    by (auto simp: bitmap_lowest_def split: if_splits)
  note sem = lowest_loop_sem[OF r assms(2)]
  from sem show "bit_is_set b r = v" by (simp add: bit_is_set_iff elem_idx_def ELEM_BITS_def)
  from sem show "\<And>m. m < r \<Longrightarrow> bit_is_set b m \<noteq> v"
    by (simp add: bit_is_set_iff elem_idx_def ELEM_BITS_def)
  from sem show "r < elem_cnt (bit_cnt b) * 32" by simp
  then have "r div 32 < elem_cnt (bit_cnt b)" by (simp add: less_mult_imp_div_less)
  with len show "elem_idx r < length (bits b)" by (simp add: elem_idx_def ELEM_BITS_def)
qed


lemma free_map_get_None:
  assumes "free_map_get s = Some (None, s')"
  shows "s' = s"
  using assms by (auto simp: free_map_get_def split: option.splits if_splits)





lemma lowest_loop_found:
  "k * 32 \<le> m \<Longrightarrow> m < n * 32 \<Longrightarrow> bit (bs ! (m div 32)) (m mod 32) = v \<Longrightarrow>
     lowest_loop bs v [k..<n] < n * 32"
proof (induction "n - k" arbitrary: k)
  case 0
  then show ?case by simp
next
  case (Suc d)
  from Suc.prems have kn: "k < n" by (cases "k < n") auto
  with Suc.hyps(2) have d: "d = n - Suc k" by simp
  have upt: "[k..<n] = k # [Suc k..<n]" using kn by (simp add: upt_conv_Cons)
  let ?P = "\<lambda>j. ((bs ! k) AND bit_mask j \<noteq> 0) = v"
  have P: "\<And>j. j < 32 \<Longrightarrow> ?P j = (bit (bs ! k) j = v)"
    by (simp add: bit_mask_def ELEM_BITS_def push_bit_of_1 and_exp_eq_0_iff_not_bit)
  show ?case
  proof (cases "m < Suc k * 32")
    case True
    with Suc.prems(1) obtain j where j: "m = k * 32 + j" "j < 32"
      by (metis add.commute less_diff_conv2 le_add_diff_inverse mult_Suc)
    with Suc.prems(3) have b: "bit (bs ! k) j = v" by simp
    then have ne: "bs ! k \<noteq> empty_elem v"
      using j(2) by (cases v) (auto simp: empty_elem_def)
    from b P[OF j(2)] j(2) have "find ?P [0..<ELEM_BITS] \<noteq> None"
      by (auto simp: find_None_iff ELEM_BITS_def)
    then obtain j' where f: "find ?P [0..<ELEM_BITS] = Some j'" by auto
    then have "j' < 32" by (auto simp: find_Some_iff ELEM_BITS_def)
    with ne f kn show ?thesis
      by (simp add: upt ELEM_BITS_def)
  next
    case False
    then have m: "Suc k * 32 \<le> m" by simp
    from Suc.hyps(1)[OF d m Suc.prems(2,3)]
    have ih: "lowest_loop bs v [Suc k..<n] < n * 32" .
    show ?thesis
    proof (cases "bs ! k \<noteq> empty_elem v \<and> find ?P [0..<ELEM_BITS] \<noteq> None")
      case True
      then obtain j' where f: "find ?P [0..<ELEM_BITS] = Some j'" by auto
      then have "j' < 32" by (auto simp: find_Some_iff ELEM_BITS_def)
      then have "k * 32 + j' < n * 32" using kn
        by (metis Suc_leI add.commute add_less_cancel_left less_le_trans mult_Suc mult_le_mono1)
      with True f show ?thesis by (simp add: upt ELEM_BITS_def)
    next
      case False
      with ih show ?thesis by (auto simp: upt split: option.splits)
    qed
  qed
qed

lemma bitmap_lowest_found:
  assumes "m < bit_cnt b" "bit_is_set b m = v"
    and "elem_cnt (bit_cnt b) \<le> length (bits b)" "bit_cnt b \<le> 4294967264"
  shows "\<exists>r. bitmap_lowest b v = Some r \<and> r \<noteq> BITMAP_ERROR \<and> r \<le> m"
proof -
  let ?n = "elem_cnt (bit_cnt b)"
  have n: "bit_cnt b \<le> ?n * 32" "?n * 32 \<le> 4294967295"
    using assms(4) by (simp_all add: elem_cnt_def ELEM_BITS_def)
  have r: "bitmap_lowest b v = Some (lowest_loop (bits b) v [0..<?n])"
    using assms(3) by (simp add: bitmap_lowest_def)
  have "lowest_loop (bits b) v [0..<?n] < ?n * 32"
    using assms(1,2) n(1)
    by (intro lowest_loop_found[of 0 m]) (auto simp: bit_is_set_iff elem_idx_def ELEM_BITS_def)
  with n(2) have ne: "lowest_loop (bits b) v [0..<?n] \<noteq> BITMAP_ERROR"
    by (simp add: BITMAP_ERROR_def SIZE_MAX_def)
  have "lowest_loop (bits b) v [0..<?n] \<le> m"
  proof (rule ccontr)
    assume "\<not> lowest_loop (bits b) v [0..<?n] \<le> m"
    then have "m < lowest_loop (bits b) v [0..<?n]" by simp
    from bitmap_lowest_sem(2)[OF r ne this] assms(2) show False by simp
  qed
  with r ne show ?thesis by simp
qed





section \<open>The layout of the on-disk structures\<close>

lemma unat_byte: "unat (of_nat v :: byte) = v mod 256"
  by (simp add: unat_of_nat)

lemma unat_byte_less: "unat (b :: byte) < 256"
  using unsigned_less[of b, where 'a = nat] by simp

lemma split16: "(v::nat) mod 256 + 256 * (v div 256 mod 256) = v mod 65536"
  using mod_mult2_eq[of v 256 256] by simp

lemma split32:
  "(v::nat) mod 256 + 256 * (v div 256 mod 256) + 65536 * (v div 65536 mod 256)
        + 16777216 * (v div 16777216 mod 256) = v mod 4294967296"
proof -
  have a: "v mod 4294967296 = 65536 * (v div 65536 mod 65536) + v mod 65536"
    using mod_mult2_eq[of v 65536 65536] by simp
  have b: "v div 65536 mod 65536 = (v div 65536) mod 256 + 256 * (v div 65536 div 256 mod 256)"
    using split16[of "v div 65536"] by simp
  have c: "v div 65536 div 256 = v div 16777216"
    by (simp add: div_mult2_eq[symmetric])
  show ?thesis unfolding a b c using split16[of v] by simp
qed

lemma rd16_wr16_same: "rd16 (wr16 buf off v) off = v mod 65536"
  using split16[of v] by (simp add: rd16_def wr16_def unat_byte)

lemma rd16_wr16_other: "off' + 1 < off \<or> off + 1 < off' \<Longrightarrow> rd16 (wr16 buf off v) off' = rd16 buf off'"
  by (auto simp: rd16_def wr16_def)

lemma rd32_wr32_same: "rd32 (wr32 buf off v) off = v mod 4294967296"
  using split32[of v] by (simp add: rd32_def wr32_def unat_byte)

lemma rd32_wr32_other: "off' + 3 < off \<or> off + 3 < off' \<Longrightarrow> rd32 (wr32 buf off v) off' = rd32 buf off'"
  by (auto simp: rd32_def wr32_def)

lemma rd32_wr16_other: "off' + 3 < off \<or> off + 1 < off' \<Longrightarrow> rd32 (wr16 buf off v) off' = rd32 buf off'"
  by (auto simp: rd32_def wr16_def)


lemma u32_less: "u32 l < 4294967296"
  by (simp add: u32_def nat_less_iff)

lemma s32_u32: "- 2147483648 \<le> l \<Longrightarrow> l < 2147483648 \<Longrightarrow> s32 (u32 l) = l"
proof (cases "0 \<le> l")
  case True
  assume "l < 2147483648"
  with True have "l mod 4294967296 = l" by simp
  with True \<open>l < 2147483648\<close> show ?thesis by (simp add: s32_def u32_def)
next
  case False
  assume "- 2147483648 \<le> l"
  with False have "(l + 4294967296) mod 4294967296 = l + 4294967296"
    by (intro mod_pos_pos_trivial) auto
  then have "l mod 4294967296 = l + 4294967296" by simp
  with False \<open>- 2147483648 \<le> l\<close> show ?thesis by (simp add: s32_def u32_def)
qed

lemma rd16_bound: "rd16 buf off < 65536"
  using unat_byte_less[of "buf off"] unat_byte_less[of "buf (off + 1)"]
  by (simp add: rd16_def)

lemma NUM_DIRECT_val: "NUM_DIRECT = 186"
  by (simp add: NUM_DIRECT_def NUM_INDIRECT_def BLOCK_SECTOR_SIZE_def)

lemma get_length_set_length:
  "- 2147483648 \<le> l \<Longrightarrow> l < 2147483648 \<Longrightarrow> get_length (set_length b l) = l"
  using u32_less[of l] by (simp add: get_length_def set_length_def rd32_wr32_same s32_u32)

lemma get_magic_set_magic: "get_magic (set_magic b m) = m mod 4294967296"
  by (simp add: get_magic_def set_magic_def rd32_wr32_same)

lemma get_counter_set_counter:
  "- 2147483648 \<le> c \<Longrightarrow> c < 2147483648 \<Longrightarrow> get_counter (set_counter b c) = c"
  using u32_less[of c] by (simp add: get_counter_def set_counter_def rd32_wr32_same s32_u32)

lemma header_frame:
  "get_length (set_magic b m) = get_length b"
  "get_length (set_counter b c) = get_length b"
  "get_length (set_direct b i v) = get_length b"
  "get_length (set_indirect b i v) = get_length b"
  "get_magic (set_length b l) = get_magic b"
  "get_magic (set_counter b c) = get_magic b"
  "get_magic (set_direct b i v) = get_magic b"
  "get_magic (set_indirect b i v) = get_magic b"
  "get_counter (set_length b l) = get_counter b"
  "get_counter (set_magic b m) = get_counter b"
  "get_counter (set_direct b i v) = get_counter b"
  "get_counter (set_indirect b i v) = get_counter b"
  by (simp_all add: get_length_def get_magic_def get_counter_def set_length_def set_magic_def
      set_counter_def set_direct_def set_indirect_def rd32_wr32_other rd32_wr16_other)


lemma rd16_wr16_slot:
  "i \<noteq> j \<Longrightarrow> rd16 (wr16 b (k + 2 * i) v) (k + 2 * j) = rd16 b (k + 2 * j)"
  by (rule rd16_wr16_other) arith

lemma get_direct_set_direct:
  "get_direct (set_direct b i v) j = (if i = j then v mod 65536 else get_direct b j)"
  by (auto simp: get_direct_def set_direct_def rd16_wr16_same rd16_wr16_slot)

lemma get_indirect_set_indirect:
  "get_indirect (set_indirect b i v) j = (if i = j then v mod 65536 else get_indirect b j)"
  by (auto simp: get_indirect_def set_indirect_def rd16_wr16_same rd16_wr16_slot)

lemma get_direct_set_indirect:
  "j < NUM_DIRECT \<Longrightarrow> get_direct (set_indirect b i v) j = get_direct b j"
  by (simp add: get_direct_def set_indirect_def rd16_wr16_other)

lemma get_indirect_set_direct:
  "i < NUM_DIRECT \<Longrightarrow> get_indirect (set_direct b i v) j = get_indirect b j"
  by (simp add: get_indirect_def set_direct_def rd16_wr16_other)

lemma node_get_node_set:
  "node_get (node_set b i v) j = (if i = j then v mod 65536 else node_get b j)"
  using rd16_wr16_slot[of i j b 0 v] by (auto simp: node_get_def node_set_def rd16_wr16_same)

lemma fold_set_direct:
  "get_direct (fold (\<lambda>i b. set_direct b i v) [0..<n] b) j
     = (if j < n then v mod 65536 else get_direct b j)"
  "get_length (fold (\<lambda>i b. set_direct b i v) [0..<n] b) = get_length b"
  "get_magic (fold (\<lambda>i b. set_direct b i v) [0..<n] b) = get_magic b"
  "get_counter (fold (\<lambda>i b. set_direct b i v) [0..<n] b) = get_counter b"
  by (induction n) (auto simp: get_direct_set_direct header_frame)

lemma fold_set_direct_indirect:
  "n \<le> NUM_DIRECT \<Longrightarrow> get_indirect (fold (\<lambda>i b. set_direct b i v) [0..<n] b) j = get_indirect b j"
  by (induction n) (auto simp: get_indirect_set_direct)

lemma fold_set_indirect:
  "get_indirect (fold (\<lambda>i b. set_indirect b i v) [0..<n] b) j
     = (if j < n then v mod 65536 else get_indirect b j)"
  "get_length (fold (\<lambda>i b. set_indirect b i v) [0..<n] b) = get_length b"
  "get_magic (fold (\<lambda>i b. set_indirect b i v) [0..<n] b) = get_magic b"
  "get_counter (fold (\<lambda>i b. set_indirect b i v) [0..<n] b) = get_counter b"
  "j < NUM_DIRECT \<Longrightarrow> get_direct (fold (\<lambda>i b. set_indirect b i v) [0..<n] b) j = get_direct b j"
  by (induction n) (auto simp: get_indirect_set_indirect header_frame get_direct_set_indirect)

lemma fold_node_set:
  "node_get (fold (\<lambda>i b. node_set b i v) [0..<n] b) j
     = (if j < n then v mod 65536 else node_get b j)"
  by (induction n) (auto simp: node_get_node_set)

section \<open>Creating an inode\<close>

text \<open>
  Claim C10.  For a sector of the device that the cache accepts (below the size of the
  device, which is at most \<open>MAX_DISK_SIZE / BLOCK_SECTOR_SIZE\<close> sectors, not a sector of
  the free map, and not locked by the caller) and a length from 0 up to the largest
  \<open>off_t\<close>, \<open>inode_create\<close> returns \<open>true\<close> and leaves the free map as it was: no
  data sector is allocated.  The sector it writes holds the given length, the counter 0
  and the magic number, and every direct and every indirect entry is \<open>NO_SECTOR\<close>; no
  other sector changes.
\<close>

theorem inode_create_ok:
  assumes "0 \<le> len" and "len < 2147483648"
    and "sec < disk_size s" and "disk_size s \<le> MAX_DISK_SIZE div BLOCK_SECTOR_SIZE"
    and "\<not> is_free_map_sec s sec" and "sec \<notin> fst ` set (held s)"
  shows "\<exists>s'. inode_create sec len s = Some (True, s')
           \<and> free_map s' = free_map s
           \<and> (\<forall>x. x \<noteq> sec \<longrightarrow> sectors s' x = sectors s x)
           \<and> get_length (sectors s' sec) = len
           \<and> get_counter (sectors s' sec) = 0
           \<and> get_magic (sectors s' sec) = INODE_MAGIC
           \<and> (\<forall>i. i < NUM_DIRECT \<longrightarrow> get_direct (sectors s' sec) i = NO_SECTOR)
           \<and> (\<forall>i. i < NUM_INDIRECT \<longrightarrow> get_indirect (sectors s' sec) i = NO_SECTOR)"
proof -
  let ?b0 = "garbage s"
  let ?b1 = "set_counter (set_magic (set_length ?b0 len) INODE_MAGIC) 0"
  let ?b2 = "fold (\<lambda>i b. set_direct b i NO_SECTOR) [0..<NUM_DIRECT] ?b1"
  let ?b3 = "fold (\<lambda>i b. set_indirect b i NO_SECTOR) [0..<NUM_INDIRECT] ?b2"
  let ?s' = "s\<lparr>sectors := (sectors s)(sec := ?b3)\<rparr>"
  from assms(3,4) have ne: "sec \<noteq> INVALID_SECTOR"
    by (simp add: INVALID_SECTOR_def MAX_DISK_SIZE_def BLOCK_SECTOR_SIZE_def)
  from assms(6) have nh: "(sec, True) \<notin> set (held s)" "(sec, False) \<notin> set (held s)"
    by force+
  have run: "inode_create sec len s = Some (True, ?s')"
    using assms ne
    by (simp add: inode_create_def ASSERT_def fs_cache_get_def cache_get_def buf_store_def
        buf_at_def fs_cache_release_def cache_release_def is_free_map_sec_def free_map_sectors_def)
  have "get_length ?b3 = len"
    using assms(1,2) by (simp add: fold_set_indirect fold_set_direct header_frame get_length_set_length)
  moreover have "get_counter ?b3 = 0"
    by (simp add: fold_set_indirect fold_set_direct header_frame get_counter_set_counter)
  moreover have "get_magic ?b3 = INODE_MAGIC"
    by (simp add: fold_set_indirect fold_set_direct header_frame get_magic_set_magic INODE_MAGIC_def)
  moreover have "\<forall>i. i < NUM_DIRECT \<longrightarrow> get_direct ?b3 i = NO_SECTOR"
    by (simp add: fold_set_indirect fold_set_direct NO_SECTOR_def)
  moreover have "\<forall>i. i < NUM_INDIRECT \<longrightarrow> get_indirect ?b3 i = NO_SECTOR"
    by (simp add: fold_set_indirect NO_SECTOR_def)
  ultimately show ?thesis using run by simp
qed

theorem inode_create_ok_witness:
  "(0::int) \<le> 1000 \<and> (1000::int) < 2147483648
   \<and> 5 < disk_size ex_fs \<and> disk_size ex_fs \<le> MAX_DISK_SIZE div BLOCK_SECTOR_SIZE
   \<and> \<not> is_free_map_sec ex_fs 5 \<and> 5 \<notin> fst ` set (held ex_fs)
   \<and> map_option fst (inode_create 5 1000 ex_fs) = Some True
   \<and> free_map (snd (the (inode_create 5 1000 ex_fs))) = free_map ex_fs
   \<and> get_length (sectors (snd (the (inode_create 5 1000 ex_fs))) 5) = 1000
   \<and> get_counter (sectors (snd (the (inode_create 5 1000 ex_fs))) 5) = 0
   \<and> get_magic (sectors (snd (the (inode_create 5 1000 ex_fs))) 5) = INODE_MAGIC
   \<and> get_direct (sectors (snd (the (inode_create 5 1000 ex_fs))) 5) 0 = NO_SECTOR
   \<and> get_indirect (sectors (snd (the (inode_create 5 1000 ex_fs))) 5) 63 = NO_SECTOR"
proof -
  have h: "(0::int) \<le> 1000" "(1000::int) < 2147483648"
    "5 < disk_size ex_fs" "disk_size ex_fs \<le> MAX_DISK_SIZE div BLOCK_SECTOR_SIZE"
    "\<not> is_free_map_sec ex_fs 5" "5 \<notin> fst ` set (held ex_fs)"
    by code_simp+
  have i: "(0::nat) < NUM_DIRECT" "63 < NUM_INDIRECT" by code_simp+
  from inode_create_ok[OF h] obtain s' where "inode_create 5 1000 ex_fs = Some (True, s')"
    and "free_map s' = free_map ex_fs" "get_length (sectors s' 5) = 1000"
    "get_counter (sectors s' 5) = 0" "get_magic (sectors s' 5) = INODE_MAGIC"
    "\<forall>i. i < NUM_DIRECT \<longrightarrow> get_direct (sectors s' 5) i = NO_SECTOR"
    "\<forall>i. i < NUM_INDIRECT \<longrightarrow> get_indirect (sectors s' 5) i = NO_SECTOR"
    by blast
  with h i show ?thesis by simp
qed

section \<open>Closing a removed inode\<close>

text \<open>
  Claim C1.  The last \<open>inode_close\<close> of a removed inode is to free every sector of the
  inode.  The loop over an indirect node in \<open>inode_close\<close> runs to \<open>NUM_DIRECT\<close>,
  not to \<open>INDIRECT_NUM_DIRECT\<close>: a data sector listed at entry 186 or beyond of an
  indirect node stays marked in the free map.  In the example the inode (sector 2) and
  its indirect node (sector 3) are released and the inode leaves \<open>open_inodes\<close>, but
  the data sector 4, entry 200 of the indirect node, is still marked afterwards.
\<close>

theorem inode_close_leaks_sector:
  "map_option (\<lambda>s. (open_inodes s, bit_is_set (free_map s) 2, bit_is_set (free_map s) 3,
                     bit_is_set (free_map s) 4, bits (free_map s)))
     (inode_close (Some 2) ex_removed)
   = Some ([], False, False, True, [19, 0])"
  by code_simp

section \<open>Eviction of a page\<close>

lemma page_sectors: "[slot * SECTORS_PER_PAGE..<(slot + 1) * SECTORS_PER_PAGE]
   = map (\<lambda>k. slot * 8 + k) [0, 1, 2, 3, 4, 5, 6, 7]"
proof -
  have "[slot * 8..<slot * 8 + 8] = map (\<lambda>k. slot * 8 + k) [0..<8]"
    by (simp add: map_add_upt add.commute)
  also have "[0..<8::nat] = [0, 1, 2, 3, 4, 5, 6, 7]"
    by (simp add: upt_rec)
  finally show ?thesis
    by (simp add: SECTORS_PER_PAGE_def PGSIZE_def BLOCK_SECTOR_SIZE_def add.commute)
qed

lemma swaptbl_store_sem:
  assumes pg: "pg mod PGSIZE = 0" "pg > PHYS_BASE"
    and free: "slot0 < bit_cnt (occupied s)" "\<not> bit_is_set (occupied s) slot0"
    and len: "elem_cnt (bit_cnt (occupied s)) \<le> length (bits (occupied s))"
      "bit_cnt (occupied s) \<le> 4294967264"
  shows "\<exists>slot s'. swaptbl_store pg s = Some (slot, s')
           \<and> slot < bit_cnt (occupied s) \<and> \<not> bit_is_set (occupied s) slot
           \<and> bit_is_set (occupied s') slot
           \<and> (\<forall>k i. k < 8 \<and> i < 512 \<longrightarrow> swap_block s' (slot * 8 + k) i = frames s pg (k * 512 + i))
           \<and> file_writes s' = file_writes s \<and> mappings s' = mappings s
           \<and> closed_files s' = closed_files s"
proof -
  from bitmap_lowest_found[OF free(1) _ len, of False] free(2)
  obtain slot where low: "bitmap_lowest (occupied s) False = Some slot"
    and ne: "slot \<noteq> BITMAP_ERROR" and le: "slot \<le> slot0" by auto
  from le free(1) have lt: "slot < bit_cnt (occupied s)" by simp
  note ls = bitmap_lowest_sem[OF low ne]
  from ls(4) obtain occ where mk: "bitmap_mark (occupied s) slot = Some occ"
    by (auto simp: bitmap_mark_def Let_def)
  then have set: "bitmap_set (occupied s) slot True = Some occ"
    using lt by (simp add: bitmap_set_def)
  let ?s1 = "s\<lparr>occupied := occ\<rparr>"
  let ?s' = "fold (\<lambda>sec s. block_write sec
                    (\<lambda>i. frames s pg ((sec - slot * SECTORS_PER_PAGE) * BLOCK_SECTOR_SIZE + i)) s)
               [slot * SECTORS_PER_PAGE..<(slot + 1) * SECTORS_PER_PAGE] ?s1"
  have run: "swaptbl_store pg s = Some (slot, ?s')"
    using pg low ne set by (simp add: swaptbl_store_def ASSERT_def Let_def)
  have blk: "\<forall>k i. k < 8 \<and> i < 512 \<longrightarrow> swap_block ?s' (slot * 8 + k) i = frames s pg (k * 512 + i)"
  proof (intro allI impI)
    fix k i :: nat assume "k < 8 \<and> i < 512"
    then have "k \<in> {0, 1, 2, 3, 4, 5, 6, 7}" "i < 512" by auto
    then show "swap_block ?s' (slot * 8 + k) i = frames s pg (k * 512 + i)"
      unfolding page_sectors
      by (auto simp: block_write_def SECTORS_PER_PAGE_def PGSIZE_def BLOCK_SECTOR_SIZE_def)
  qed
  have rest: "file_writes ?s' = file_writes s" "mappings ?s' = mappings s"
    "closed_files ?s' = closed_files s" "occupied ?s' = occ"
    unfolding page_sectors by (simp_all add: block_write_def)
  from bitmap_mark_bit(1)[OF mk, of slot] rest(4) have "bit_is_set (occupied ?s') slot" by simp
  with run lt ls(1) blk rest show ?thesis by blast
qed

lemma fold_block_write_frame:
  "file_writes (fold (\<lambda>sec s. block_write sec (f sec s) s) xs s) = file_writes s
   \<and> mappings (fold (\<lambda>sec s. block_write sec (f sec s) s) xs s) = mappings s"
  by (induction xs arbitrary: s) (simp_all add: block_write_def)

lemma swaptbl_store_frame:
  assumes "swaptbl_store pg s = Some (slot, s')"
  shows "file_writes s' = file_writes s" "mappings s' = mappings s"
proof -
  from assms obtain occ where
    "s' = fold (\<lambda>sec s. block_write sec
                    (\<lambda>i. frames s pg ((sec - slot * SECTORS_PER_PAGE) * BLOCK_SECTOR_SIZE + i)) s)
               [slot * SECTORS_PER_PAGE..<(slot + 1) * SECTORS_PER_PAGE] (s\<lparr>occupied := occ\<rparr>)"
    unfolding swaptbl_store_def by (auto simp: Let_def split: Option.bind_splits)
  then show "file_writes s' = file_writes s" "mappings s' = mappings s"
    using fold_block_write_frame[of "\<lambda>sec s i. frames s pg ((sec - slot * SECTORS_PER_PAGE) * BLOCK_SECTOR_SIZE + i)"]
    by simp_all
qed

lemma swaptbl_load_frame:
  assumes "swaptbl_load pg slot s = Some s'"
  shows "file_writes s' = file_writes s" "mappings s' = mappings s"
  using assms unfolding swaptbl_load_def
  by (auto simp: Let_def split: Option.bind_splits option.splits)

lemma mapping_free_frame:
  assumes "mapping_free p s = Some s'"
  shows "file_writes s' = file_writes s" "mappings s' p = None"
  using assms unfolding mapping_free_def
  by (auto simp: Let_def palloc_free_page_def dest: swaptbl_load_frame
      split: Option.bind_splits if_splits mapping_data.splits)


lemma evict_to_swap_frame:
  assumes "evict_to_swap frm m s = Some (m', s')"
  shows "file_writes s' = file_writes s" "mappings s' = mappings s"
    "hasfile m' = hasfile m" "fwrite m' = fwrite m" "swapped m'"
  using assms unfolding evict_to_swap_def
  by (auto simp: Let_def dest: swaptbl_store_frame split: Option.bind_splits)

lemma vm_evict_page_swap_backed:
  assumes "mappings t p = Some m2" "\<not> hasfile m2" "\<not> fwrite m2"
    and "vm_evict_page (Some p) t = Some t'"
  shows "file_writes t' = file_writes t \<and> (\<forall>m3. mappings t' p = Some m3 \<longrightarrow> \<not> hasfile m3 \<and> \<not> fwrite m3)"
proof (cases "orphaned m2")
  case True
  with assms have "mapping_free p t = Some t'"
    by (auto simp: vm_evict_page_def Let_def split: Option.bind_splits)
  from mapping_free_frame[OF this] show ?thesis by simp
next
  case False
  let ?m = "m2\<lparr>present := False\<rparr>"
  let ?s = "t\<lparr>pd_mapped := (pd_mapped t)((pt m2) := (pd_mapped t (pt m2))((page m2) := False))\<rparr>"
  show ?thesis
  proof (cases "\<not> pd_dirty t (pt m2) (page m2) \<and> \<not> swapped m2")
    case True
    with assms False show ?thesis
      by (auto simp: vm_evict_page_def Let_def palloc_free_page_def ASSERT_def
          split: Option.bind_splits if_splits)
  next
    case F2: False
    with assms False obtain m' s' where sw: "evict_to_swap (frame m2) ?m ?s = Some (m', s')"
      and t': "t' = (palloc_free_page (frame m2) s')\<lparr>mappings := (mappings (palloc_free_page (frame m2) s'))(p \<mapsto> m')\<rparr>"
      by (auto simp: vm_evict_page_def Let_def ASSERT_def split: Option.bind_splits if_splits)
    from evict_to_swap_frame[OF sw] assms(2,3) t' show ?thesis
      by (simp add: palloc_free_page_def)
  qed
qed

lemma mapping_destroy_swap_backed:
  assumes "mappings t p = Some m2" "\<not> hasfile m2" "\<not> fwrite m2"
    and "mapping_destroy p t = Some t'"
  shows "file_writes t' = file_writes t \<and> (\<forall>m3. mappings t' p = Some m3 \<longrightarrow> \<not> hasfile m3 \<and> \<not> fwrite m3)"
proof (cases "present m2")
  case True
  with assms show ?thesis by (auto simp: mapping_destroy_def Let_def)
next
  case False
  with assms have "mapping_free p t = Some t'" by (auto simp: mapping_destroy_def)
  from mapping_free_frame[OF this] show ?thesis by simp
qed

text \<open>
  Claim C8.  Let a mapping be present, not orphaned, file-backed (\<open>hasfile\<close>) with
  \<open>fwrite\<close> clear, and let its page be dirty when \<open>vm_evict_page\<close> is called; let the
  frame be a page-aligned kernel address and the swap table have a free slot.  Then
  \<open>vm_evict_page\<close> returns, the mapping has \<open>hasfile\<close> and \<open>fwrite\<close> clear and
  \<open>swapped\<close> set, its swap slot was free before the call and is occupied after it, the
  eight sectors of the slot hold the bytes of the frame, and no write to a file is
  issued.  The mapping stays swap-backed: bringing the page back into a frame leaves the
  three bits as they are, and no later \<open>vm_evict_page\<close> or \<open>mapping_destroy\<close> of a
  mapping with \<open>hasfile\<close> and \<open>fwrite\<close> clear sets either bit or writes to a file.
\<close>

theorem vm_evict_page_promotes:
  assumes "mappings s p = Some m" and "present m" and "\<not> orphaned m"
    and "hasfile m" and "\<not> fwrite m" and "pd_dirty s (pt m) (page m)"
    and "frame m mod PGSIZE = 0" and "frame m > PHYS_BASE"
    and "slot0 < bit_cnt (occupied s)" and "\<not> bit_is_set (occupied s) slot0"
    and "elem_cnt (bit_cnt (occupied s)) \<le> length (bits (occupied s))"
    and "bit_cnt (occupied s) \<le> 4294967264"
  shows "\<exists>s' m' slot. vm_evict_page (Some p) s = Some s' \<and> mappings s' p = Some m'
      \<and> \<not> hasfile m' \<and> \<not> fwrite m' \<and> swapped m' \<and> \<not> present m' \<and> data m' = SWAP_SLOT slot
      \<and> \<not> bit_is_set (occupied s) slot \<and> bit_is_set (occupied s') slot
      \<and> (\<forall>k i. k < 8 \<and> i < 512 \<longrightarrow>
             swap_block s' (slot * 8 + k) i = frames s (frame m) (k * 512 + i))
      \<and> file_writes s' = file_writes s
      \<and> (\<forall>kpage. \<exists>m2. mappings (reloaded p kpage s') p = Some m2
             \<and> \<not> hasfile m2 \<and> \<not> fwrite m2 \<and> swapped m2
             \<and> file_writes (reloaded p kpage s') = file_writes s')
      \<and> (\<forall>t t' m2. mappings t p = Some m2 \<and> \<not> hasfile m2 \<and> \<not> fwrite m2
             \<and> (vm_evict_page (Some p) t = Some t' \<or> mapping_destroy p t = Some t') \<longrightarrow>
             file_writes t' = file_writes t
             \<and> (\<forall>m3. mappings t' p = Some m3 \<longrightarrow> \<not> hasfile m3 \<and> \<not> fwrite m3))"
proof -
  let ?s0 = "s\<lparr>pd_mapped := (pd_mapped s)((pt m) := (pd_mapped s (pt m))((page m) := False))\<rparr>"
  have "frames ?s0 = frames s" "occupied ?s0 = occupied s" "file_writes ?s0 = file_writes s"
    by simp_all
  with swaptbl_store_sem[of "frame m" slot0 ?s0] assms(7-12)
  obtain slot s1 where st: "swaptbl_store (frame m) ?s0 = Some (slot, s1)"
    and sl: "\<not> bit_is_set (occupied s) slot" "bit_is_set (occupied s1) slot"
    and blk: "\<forall>k i. k < 8 \<and> i < 512 \<longrightarrow> swap_block s1 (slot * 8 + k) i = frames s (frame m) (k * 512 + i)"
    and fr: "file_writes s1 = file_writes s" by auto
  define m' where "m' = m\<lparr>present := False, fwrite := False, hasfile := False, swapped := True,
                data := SWAP_SLOT slot\<rparr>"
  define s' where "s' = (palloc_free_page (frame m) s1)\<lparr>mappings := (mappings (palloc_free_page (frame m) s1))(p \<mapsto> m')\<rparr>"
  have run: "vm_evict_page (Some p) s = Some s'"
    using assms(1-6) st
    by (simp add: vm_evict_page_def evict_to_swap_def ASSERT_def Let_def s'_def m'_def)
  have a: "mappings s' p = Some m'" "occupied s' = occupied s1" "swap_block s' = swap_block s1"
    "file_writes s' = file_writes s"
    using fr by (simp_all add: palloc_free_page_def s'_def)
  have m: "\<not> hasfile m'" "\<not> fwrite m'" "swapped m'" "\<not> present m'" "data m' = SWAP_SLOT slot"
    by (simp_all add: m'_def)
  have rel: "\<forall>kpage. \<exists>m2. mappings (reloaded p kpage s') p = Some m2
             \<and> \<not> hasfile m2 \<and> \<not> fwrite m2 \<and> swapped m2
             \<and> file_writes (reloaded p kpage s') = file_writes s'"
    using a(1) m by (simp add: reloaded_def)
  have perm: "\<forall>t t' m2. mappings t p = Some m2 \<and> \<not> hasfile m2 \<and> \<not> fwrite m2
             \<and> (vm_evict_page (Some p) t = Some t' \<or> mapping_destroy p t = Some t') \<longrightarrow>
             file_writes t' = file_writes t
             \<and> (\<forall>m3. mappings t' p = Some m3 \<longrightarrow> \<not> hasfile m3 \<and> \<not> fwrite m3)"
  proof (intro allI impI)
    fix t t' m2
    assume h: "mappings t p = Some m2 \<and> \<not> hasfile m2 \<and> \<not> fwrite m2
             \<and> (vm_evict_page (Some p) t = Some t' \<or> mapping_destroy p t = Some t')"
    then have 1: "mappings t p = Some m2" "\<not> hasfile m2" "\<not> fwrite m2" by simp_all
    from h have "vm_evict_page (Some p) t = Some t' \<or> mapping_destroy p t = Some t'" by simp
    then show "file_writes t' = file_writes t
             \<and> (\<forall>m3. mappings t' p = Some m3 \<longrightarrow> \<not> hasfile m3 \<and> \<not> fwrite m3)"
      using vm_evict_page_swap_backed[OF 1] mapping_destroy_swap_backed[OF 1] by blast
  qed
  have occ: "bit_is_set (occupied s') slot" using sl(2) a(2) by simp
  have blk': "\<forall>k i. k < 8 \<and> i < 512 \<longrightarrow>
             swap_block s' (slot * 8 + k) i = frames s (frame m) (k * 512 + i)"
    using blk a(3) by simp
  show ?thesis
    apply (rule exI[of _ s'], rule exI[of _ m'], rule exI[of _ slot])
    apply (intro conjI)
    apply (rule run a(1) m sl(1) occ blk' a(4) rel perm)+
    done
qed

theorem vm_evict_page_promotes_witness:
  "mappings ex_vm 100 = Some ex_mapping \<and> present ex_mapping \<and> \<not> orphaned ex_mapping
   \<and> hasfile ex_mapping \<and> \<not> fwrite ex_mapping \<and> pd_dirty ex_vm (pt ex_mapping) (page ex_mapping)
   \<and> frame ex_mapping mod PGSIZE = 0 \<and> frame ex_mapping > PHYS_BASE
   \<and> 1 < bit_cnt (occupied ex_vm) \<and> \<not> bit_is_set (occupied ex_vm) 1
   \<and> elem_cnt (bit_cnt (occupied ex_vm)) \<le> length (bits (occupied ex_vm))
   \<and> bit_cnt (occupied ex_vm) \<le> 4294967264
   \<and> vm_evict_page (Some 100) ex_vm \<noteq> None
   \<and> map_option hasfile (mappings (the (vm_evict_page (Some 100) ex_vm)) 100) = Some False
   \<and> map_option fwrite (mappings (the (vm_evict_page (Some 100) ex_vm)) 100) = Some False
   \<and> map_option swapped (mappings (the (vm_evict_page (Some 100) ex_vm)) 100) = Some True
   \<and> map_option data (mappings (the (vm_evict_page (Some 100) ex_vm)) 100) = Some (SWAP_SLOT 1)
   \<and> bit_is_set (occupied (the (vm_evict_page (Some 100) ex_vm))) 1
   \<and> swap_block (the (vm_evict_page (Some 100) ex_vm)) (1 * 8 + 2) 5
       = frames ex_vm (frame ex_mapping) (2 * 512 + 5)
   \<and> file_writes (the (vm_evict_page (Some 100) ex_vm)) = []
   \<and> map_option hasfile (mappings ex_vm_swapped 100) = Some False
   \<and> map_option fwrite (mappings ex_vm_swapped 100) = Some False
   \<and> vm_evict_page (Some 100) ex_vm_swapped \<noteq> None
   \<and> file_writes (the (vm_evict_page (Some 100) ex_vm_swapped)) = file_writes ex_vm_swapped"
proof -
  have h: "mappings ex_vm 100 = Some ex_mapping" "present ex_mapping" "\<not> orphaned ex_mapping"
   "hasfile ex_mapping" "\<not> fwrite ex_mapping" "pd_dirty ex_vm (pt ex_mapping) (page ex_mapping)"
   "frame ex_mapping mod PGSIZE = 0" "frame ex_mapping > PHYS_BASE"
   "1 < bit_cnt (occupied ex_vm)" "\<not> bit_is_set (occupied ex_vm) 1"
   "elem_cnt (bit_cnt (occupied ex_vm)) \<le> length (bits (occupied ex_vm))"
   "bit_cnt (occupied ex_vm) \<le> 4294967264"
    by code_simp+
  have e: "map_option data (mappings (the (vm_evict_page (Some 100) ex_vm)) 100) = Some (SWAP_SLOT 1)"
    "swap_block (the (vm_evict_page (Some 100) ex_vm)) (1 * 8 + 2) 5
       = frames ex_vm (frame ex_mapping) (2 * 512 + 5)"
    "file_writes ex_vm = []"
    by code_simp+
  have g: "map_option hasfile (mappings ex_vm_swapped 100) = Some False"
    "map_option fwrite (mappings ex_vm_swapped 100) = Some False"
    "vm_evict_page (Some 100) ex_vm_swapped \<noteq> None"
    by code_simp+
  then obtain m2 t' where m2: "mappings ex_vm_swapped 100 = Some m2" "\<not> hasfile m2" "\<not> fwrite m2"
    and t': "vm_evict_page (Some 100) ex_vm_swapped = Some t'"
    by auto
  from vm_evict_page_promotes[OF h] obtain s' m' slot where
    r: "vm_evict_page (Some 100) ex_vm = Some s'" "mappings s' 100 = Some m'"
      "\<not> hasfile m'" "\<not> fwrite m'" "swapped m'" "data m' = SWAP_SLOT slot"
      "bit_is_set (occupied s') slot" "file_writes s' = file_writes ex_vm"
    and perm: "\<forall>t t' m2. mappings t 100 = Some m2 \<and> \<not> hasfile m2 \<and> \<not> fwrite m2
             \<and> (vm_evict_page (Some 100) t = Some t' \<or> mapping_destroy 100 t = Some t') \<longrightarrow>
             file_writes t' = file_writes t
             \<and> (\<forall>m3. mappings t' 100 = Some m3 \<longrightarrow> \<not> hasfile m3 \<and> \<not> fwrite m3)"
    by blast
  from perm m2 t' have p: "file_writes t' = file_writes ex_vm_swapped" by blast
  from r e(1) have "slot = 1" by simp
  with r h e g p t' show ?thesis by simp
qed

section \<open>Reading and writing a well-formed inode\<close>












lemma sectors_held [simp]: "sectors (s\<lparr>held := x\<rparr>) = sectors s" "disk_size (s\<lparr>held := x\<rparr>) = disk_size s"
  by simp_all














subsection \<open>Reading where no sector is allocated\<close>



end
